theory Spec2Isabelle
  imports
    Complex_Main
    "HOL-Library.Product_Lexorder"
    "HOL-Library.List_Lexorder"
    "HOL-Library.Char_ord"
begin

section \<open>Python values used by the pipeline\<close>

text \<open>
  Exceptions of the Python runtime that the modelled code can raise. A function that may
  raise returns \<open>exn + 'a\<close>, with \<open>Inl\<close> the exception.
\<close>

datatype exn = TypeError | KeyError string | IndexError | ValueError | AttributeError

text \<open>
  A float64 cell of a numpy array. The special values are kept apart; a finite value
  carries its exact real value. Rounding and overflow of float64 arithmetic are not
  modelled: sums and quotients of finite values are the exact real ones.
\<close>

datatype float64 = Finite real | PosInf | NegInf | NaN

type_synonym grid = "float64 list list"

definition float_max :: real where
  "float_max = (2 ^ 53 - 1) * 2 ^ 971"

text \<open>\<open>np.nan_to_num\<close> with its default arguments, on one cell.\<close>

fun nan_to_num :: "float64 \<Rightarrow> float64" where
  "nan_to_num NaN = Finite 0"
| "nan_to_num PosInf = Finite float_max"
| "nan_to_num NegInf = Finite (- float_max)"
| "nan_to_num (Finite r) = Finite r"

text \<open>
  The position of a float64 in numpy's sort order: minus infinity, the finite values,
  plus infinity, and NaN last.
\<close>

fun rank :: "float64 \<Rightarrow> int \<times> real" where
  "rank NegInf = (-1, 0)"
| "rank (Finite r) = (0, r)"
| "rank PosInf = (1, 0)"
| "rank NaN = (2, 0)"

text \<open>The comparison \<open>a < b\<close> of two floats: false as soon as one of them is NaN.\<close>

definition flt :: "float64 \<Rightarrow> float64 \<Rightarrow> bool" where
  "flt a b = (a \<noteq> NaN \<and> b \<noteq> NaN \<and> rank a < rank b)"

fun fadd :: "float64 \<Rightarrow> float64 \<Rightarrow> float64" where
  "fadd NaN _ = NaN"
| "fadd _ NaN = NaN"
| "fadd PosInf NegInf = NaN"
| "fadd NegInf PosInf = NaN"
| "fadd PosInf _ = PosInf"
| "fadd _ PosInf = PosInf"
| "fadd NegInf _ = NegInf"
| "fadd _ NegInf = NegInf"
| "fadd (Finite a) (Finite b) = Finite (a + b)"

fun fneg :: "float64 \<Rightarrow> float64" where
  "fneg (Finite r) = Finite (- r)"
| "fneg PosInf = NegInf"
| "fneg NegInf = PosInf"
| "fneg NaN = NaN"

text \<open>A float divided by a count \<open>n\<close> of cells; \<open>0 / 0\<close> is NaN.\<close>

fun fdiv_count :: "float64 \<Rightarrow> nat \<Rightarrow> float64" where
  "fdiv_count NaN n = NaN"
| "fdiv_count PosInf n = PosInf"
| "fdiv_count NegInf n = NegInf"
| "fdiv_count (Finite r) n =
     (if n = 0 then (if r = 0 then NaN else if 0 < r then PosInf else NegInf)
      else Finite (r / real n))"

text \<open>
  \<open>np.sqrt(a**2 + b**2)\<close> on one cell, and on two arrays cell by cell. OpenPIV returns
  \<open>u\<close> and \<open>v\<close> of one shape, so the cells are paired by position.
\<close>

fun mag :: "float64 \<Rightarrow> float64 \<Rightarrow> float64" where
  "mag NaN _ = NaN"
| "mag _ NaN = NaN"
| "mag (Finite a) (Finite b) = Finite (sqrt (a ^ 2 + b ^ 2))"
| "mag _ _ = PosInf"

definition magnitude :: "grid \<Rightarrow> grid \<Rightarrow> grid" where
  "magnitude us vs = map2 (map2 mag) us vs"

text \<open>
  \<open>np.nanmax\<close> of a whole array: the largest cell that is not NaN, NaN when every cell is
  NaN, and ValueError on an array without cells.
\<close>

definition nanmax :: "grid \<Rightarrow> exn + float64" where
  "nanmax g =
     (let cells = concat g in
      if cells = [] then Inl ValueError
      else (case filter (\<lambda>x. x \<noteq> NaN) cells of
              [] \<Rightarrow> Inr NaN
            | y # ys \<Rightarrow> Inr (foldl (\<lambda>m x. if flt m x then x else m) y ys)))"

text \<open>Python's \<open>xs[i]\<close>: a negative index counts from the end, out of range raises.\<close>

definition py_get :: "'a list \<Rightarrow> int \<Rightarrow> exn + 'a" where
  "py_get xs i =
     (let n = int (length xs); j = (if i < 0 then i + n else i)
      in if 0 \<le> j \<and> j < n then Inr (xs ! nat j) else Inl IndexError)"

text \<open>Python's \<open>xs[i:j]\<close>: negative bounds count from the end, then both are clipped.\<close>

definition py_slice :: "'a list \<Rightarrow> int \<Rightarrow> int \<Rightarrow> 'a list" where
  "py_slice xs i j =
     (let n = int (length xs);
          clip = (\<lambda>k. if k < 0 then max 0 (k + n) else min k n);
          lo = clip i; hi = clip j
      in take (nat (hi - lo)) (drop (nat lo) xs))"

section \<open>Pass 1 of \<open>analyze_and_save_frames\<close>\<close>

text \<open>
  One entry of \<open>frames_data\<close>: the filtered field, the background frame and the 1-based
  index of the pair.
\<close>

record 'f frame_result =
  fr_u :: grid
  fr_v :: grid
  fr_bg :: 'f
  fr_frame_index :: nat

text \<open>The local variables that the loop of pass 1 updates.\<close>

record 'f pass1_state =
  frames_data :: "'f frame_result list"
  overall_max_mag :: float64
  frame_index :: nat

text \<open>
  The video capture is the list of frames it has not yet delivered: \<open>cap.read()\<close> hands out
  the next frame, and fails from the end of the stream on.
\<close>

definition cap_read :: "'f list \<Rightarrow> 'f option \<times> 'f list" where
  "cap_read cap = (case cap of [] \<Rightarrow> (None, []) | f # fs \<Rightarrow> (Some f, fs))"

text \<open>
  The loop that fills \<open>frame_buffer\<close>: \<open>n\<close> reads, each appended when it succeeds. The result
  is the buffer and the capture after the reads.
\<close>

fun fill_buffer :: "nat \<Rightarrow> 'f list \<Rightarrow> 'f list \<Rightarrow> 'f list \<times> 'f list" where
  "fill_buffer 0 cap buf = (buf, cap)"
| "fill_buffer (Suc n) cap buf =
     (case cap_read cap of
        (None, cap') \<Rightarrow> fill_buffer n cap' buf
      | (Some f, cap') \<Rightarrow> fill_buffer n cap' (buf @ [f]))"

text \<open>
  The body of the \<open>while\<close> loop up to the update of \<open>overall_max_mag\<close>. The estimation
  and the outlier filter of OpenPIV are the parameter \<open>est\<close>, which gives the filtered
  \<open>u\<close> and \<open>v\<close> of a pair of frames; \<open>scal\<close> is what \<open>scaling.uniform\<close> does to one cell.
\<close>

definition analyze_pair ::
  "int \<Rightarrow> ('f \<Rightarrow> 'f \<Rightarrow> grid \<times> grid) \<Rightarrow> (float64 \<Rightarrow> float64) \<Rightarrow> 'f list \<Rightarrow>
   'f pass1_state \<Rightarrow> exn + 'f pass1_state" where
  "analyze_pair frame_comparison_step est scal frame_buffer st =
     (case py_get frame_buffer 0 of
        Inl e \<Rightarrow> Inl e
      | Inr frame_a_color \<Rightarrow>
     (case py_get frame_buffer frame_comparison_step of
        Inl e \<Rightarrow> Inl e
      | Inr frame_b_color \<Rightarrow>
     (let idx = frame_index st + 1;
          (u_filtered, v_filtered) = est frame_a_color frame_b_color;
          fd = frames_data st @
               [\<lparr>fr_u = u_filtered, fr_v = v_filtered, fr_bg = frame_a_color,
                 fr_frame_index = idx\<rparr>];
          magn = magnitude (map (map scal) u_filtered) (map (map scal) v_filtered)
      in case nanmax (map (map nan_to_num) magn) of
           Inl e \<Rightarrow> Inl e
         | Inr current_max_mag \<Rightarrow>
             Inr \<lparr>frames_data = fd,
                  overall_max_mag =
                    (if flt (overall_max_mag st) current_max_mag then current_max_mag
                     else overall_max_mag st),
                  frame_index = idx\<rparr>)))"

text \<open>
  The \<open>while True\<close> loop, by recursion on the frames left in the capture: after a pair the
  buffer drops its first frame, and the loop ends when \<open>cap.read()\<close> fails.
\<close>

fun pass1_loop ::
  "int \<Rightarrow> ('f \<Rightarrow> 'f \<Rightarrow> grid \<times> grid) \<Rightarrow> (float64 \<Rightarrow> float64) \<Rightarrow> 'f list \<Rightarrow> 'f list \<Rightarrow>
   'f pass1_state \<Rightarrow> exn + 'f pass1_state" where
  "pass1_loop s est scal frame_buffer [] st = analyze_pair s est scal frame_buffer st"
| "pass1_loop s est scal frame_buffer (new_frame # cap) st =
     (case analyze_pair s est scal frame_buffer st of
        Inl e \<Rightarrow> Inl e
      | Inr st' \<Rightarrow> pass1_loop s est scal (tl frame_buffer @ [new_frame]) cap st')"

text \<open>
  Pass 1 from the opened capture to \<open>cap.release()\<close>: \<open>None\<close> is the early return when the
  buffer holds too few frames, otherwise the state after the last pair.
\<close>

definition pass1 ::
  "int \<Rightarrow> ('f \<Rightarrow> 'f \<Rightarrow> grid \<times> grid) \<Rightarrow> (float64 \<Rightarrow> float64) \<Rightarrow> 'f list \<Rightarrow>
   exn + 'f pass1_state option" where
  "pass1 frame_comparison_step est scal cap =
     (let st0 = \<lparr>frames_data = [], overall_max_mag = Finite 0, frame_index = 0\<rparr>;
          (frame_buffer, cap') = fill_buffer (nat (frame_comparison_step + 1)) cap []
      in if int (length frame_buffer) \<le> frame_comparison_step then Inr None
         else (case pass1_loop frame_comparison_step est scal frame_buffer cap' st0 of
                 Inl e \<Rightarrow> Inl e
               | Inr st \<Rightarrow> Inr (Some st)))"

section \<open>Pass 2 of \<open>analyze_and_save_frames\<close>\<close>

text \<open>
  \<open>np.nanmean\<close> and \<open>np.nanmedian\<close> along the window axis reduce every cell on its own;
  here they are given on the list of the values that one cell has across the window.
  \<open>nanmean\<close> sums with NaN replaced by zero and divides by the number of cells that are
  not NaN. \<open>nanmedian\<close> drops the NaN cells, sorts the others and takes the middle one,
  or the mean of the two middle ones; a cell that is NaN in the whole window stays NaN.
\<close>

definition nanmean :: "float64 list \<Rightarrow> float64" where
  "nanmean xs =
     (let arr = map (\<lambda>x. if x = NaN then Finite 0 else x) xs;
          cnt = length (filter (\<lambda>x. x \<noteq> NaN) xs);
          tot = foldl fadd (Finite 0) arr
      in fdiv_count tot cnt)"

definition nanmedian :: "float64 list \<Rightarrow> float64" where
  "nanmedian xs =
     (let part = sort_key rank (filter (\<lambda>x. x \<noteq> NaN) xs); n = length part
      in if n = 0 then NaN
         else if odd n then part ! (n div 2)
         else fdiv_count (fadd (part ! (n div 2 - 1)) (part ! (n div 2))) 2)"

text \<open>
  The shape of an array is the list of its row lengths. \<open>np.stack\<close> raises ValueError on
  an empty list of arrays and on arrays of different shapes.
\<close>

definition shape :: "grid \<Rightarrow> nat list" where
  "shape g = map length g"

definition stack :: "grid list \<Rightarrow> exn + grid list" where
  "stack arrays =
     (if arrays = [] \<or> (\<exists>g \<in> set arrays. shape g \<noteq> shape (hd arrays)) then Inl ValueError
      else Inr arrays)"

text \<open>A reduction along axis 0 of the stack: cell by cell over the window.\<close>

definition reduce_axis0 :: "(float64 list \<Rightarrow> float64) \<Rightarrow> grid list \<Rightarrow> grid" where
  "reduce_axis0 f stacked =
     map (\<lambda>r. map (\<lambda>c. f (map (\<lambda>g. g ! r ! c) stacked)) [0..<length (hd stacked ! r)])
         [0..<length (hd stacked)]"

definition aggregate :: "string \<Rightarrow> grid list \<Rightarrow> exn + grid" where
  "aggregate averaging_method arrays =
     (case stack arrays of
        Inl e \<Rightarrow> Inl e
      | Inr stacked \<Rightarrow>
          Inr (reduce_axis0 (if averaging_method = ''median'' then nanmedian else nanmean)
                 stacked))"

text \<open>
  The decimal digits of a non-negative integer, the format \<open>{frame_num:003d}\<close> (zero
  flag, width 3), and the name of the image inside the output directory.
\<close>

fun digits :: "nat \<Rightarrow> string" where
  "digits n =
     (if n < 10 then [char_of (48 + n)]
      else digits (n div 10) @ [char_of (48 + n mod 10)])"

definition format_03d :: "nat \<Rightarrow> string" where
  "format_03d n = replicate (3 - length (digits n)) CHR ''0'' @ digits n"

definition image_name :: "nat \<Rightarrow> string" where
  "image_name frame_num = ''img'' @ format_03d frame_num @ ''.png''"

text \<open>
  What one call of \<open>savefig\<close> depends on: the background, the arrays given to \<open>quiver\<close>
  (the \<open>v\<close> component negated), the colour limit, the arrow scale and the title.
\<close>

datatype title = PairTitle nat int | WindowTitle string int nat

record 'f image =
  img_bg :: 'f
  img_u :: grid
  img_v :: grid
  img_color :: grid
  img_clim :: float64
  img_scale :: float64
  img_title :: title

fun times20 :: "float64 \<Rightarrow> float64" where
  "times20 (Finite r) = Finite (r * 20)"
| "times20 x = x"

text \<open>The body of the \<open>for\<close> loop of pass 2, for window position \<open>i\<close>.\<close>

definition save_image ::
  "(float64 \<Rightarrow> float64) \<Rightarrow> int \<Rightarrow> int \<Rightarrow> string \<Rightarrow> float64 \<Rightarrow> 'f frame_result list \<Rightarrow> nat \<Rightarrow>
   exn + string \<times> 'f image" where
  "save_image scal frame_comparison_step moving_average_window averaging_method vmax_to_use
     fd i =
     (let window_data = py_slice fd (int i) (int i + moving_average_window) in
      case py_get window_data 0 of
        Inl e \<Rightarrow> Inl e
      | Inr base_data \<Rightarrow>
     (let frame_num = fr_frame_index base_data in
      case aggregate averaging_method (map fr_u window_data) of
        Inl e \<Rightarrow> Inl e
      | Inr aggregated_u_raw \<Rightarrow>
     (case aggregate averaging_method (map fr_v window_data) of
        Inl e \<Rightarrow> Inl e
      | Inr aggregated_v_raw \<Rightarrow>
     (let agg_u_scaled = map (map scal) aggregated_u_raw;
          agg_v_scaled = map (map scal) aggregated_v_raw;
          magn = magnitude agg_u_scaled agg_v_scaled;
          magnitude_nonan = map (map nan_to_num) magn;
          agg_u_nonan = map (map nan_to_num) agg_u_scaled;
          agg_v_nonan = map (map nan_to_num) agg_v_scaled;
          plot_scale = (if flt (Finite 0) vmax_to_use then times20 vmax_to_use else Finite 30);
          ttl = (if 1 < moving_average_window
                 then WindowTitle (if averaging_method = ''median'' then ''Median'' else ''Averaged'')
                        moving_average_window frame_num
                 else PairTitle frame_num (int frame_num + frame_comparison_step))
      in Inr (image_name frame_num,
              \<lparr>img_bg = fr_bg base_data, img_u = agg_u_nonan,
               img_v = map (map fneg) agg_v_nonan, img_color = magnitude_nonan,
               img_clim = vmax_to_use, img_scale = plot_scale, img_title = ttl\<rparr>)))))"

text \<open>The \<open>for\<close> loop over the window positions; it stops at the first exception.\<close>

fun save_images ::
  "(float64 \<Rightarrow> float64) \<Rightarrow> int \<Rightarrow> int \<Rightarrow> string \<Rightarrow> float64 \<Rightarrow> 'f frame_result list \<Rightarrow> nat list \<Rightarrow>
   exn + (string \<times> 'f image) list" where
  "save_images scal s w m vmax fd [] = Inr []"
| "save_images scal s w m vmax fd (i # is) =
     (case save_image scal s w m vmax fd i of
        Inl e \<Rightarrow> Inl e
      | Inr img \<Rightarrow>
          (case save_images scal s w m vmax fd is of
             Inl e \<Rightarrow> Inl e
           | Inr imgs \<Rightarrow> Inr (img # imgs)))"

definition pass2 ::
  "(float64 \<Rightarrow> float64) \<Rightarrow> float64 option \<Rightarrow> int \<Rightarrow> int \<Rightarrow> string \<Rightarrow> float64 \<Rightarrow>
   'f frame_result list \<Rightarrow> exn + (string \<times> 'f image) list" where
  "pass2 scal vmax_override frame_comparison_step moving_average_window averaging_method
     overall fd =
     (let vmax_to_use = (case vmax_override of None \<Rightarrow> overall | Some v \<Rightarrow> v);
          num_images_to_save = int (length fd) - moving_average_window + 1
      in save_images scal frame_comparison_step moving_average_window averaging_method
           vmax_to_use fd [0..<nat num_images_to_save])"

section \<open>\<open>analyze_and_save_frames\<close>\<close>

text \<open>
  The capture that \<open>cv2.VideoCapture(video_path)\<close> returns: whether it is opened, and the
  frames it will deliver. What the function leaves behind is whether \<open>cap.release()\<close> was
  called, the error and summary lines it printed (the progress lines are left out) and
  the images it saved, in the order of the calls.
\<close>

record 'f capture =
  is_opened :: bool
  cap_frames :: "'f list"

datatype msg =
    CouldNotOpen
  | NotEnoughFrames
  | AnalysisComplete nat float64
  | NoFramesAnalyzed
  | ProcessingComplete int

record 'f outcome =
  released :: bool
  printed :: "msg list"
  saved :: "(string \<times> 'f image) list"

definition analyze_and_save_frames ::
  "'f capture \<Rightarrow> ('f \<Rightarrow> 'f \<Rightarrow> grid \<times> grid) \<Rightarrow> (float64 \<Rightarrow> float64) \<Rightarrow> float64 option \<Rightarrow>
   int \<Rightarrow> int \<Rightarrow> string \<Rightarrow> exn + 'f outcome" where
  "analyze_and_save_frames cap est scal vmax_override frame_comparison_step
     moving_average_window averaging_method =
     (if \<not> is_opened cap
      then Inr \<lparr>released = False, printed = [CouldNotOpen], saved = []\<rparr>
      else
        (case pass1 frame_comparison_step est scal (cap_frames cap) of
           Inl e \<Rightarrow> Inl e
         | Inr None \<Rightarrow> Inr \<lparr>released = True, printed = [NotEnoughFrames], saved = []\<rparr>
         | Inr (Some st) \<Rightarrow>
             (let done = AnalysisComplete (length (frames_data st)) (overall_max_mag st) in
              if frames_data st = []
              then Inr \<lparr>released = True, printed = [done, NoFramesAnalyzed], saved = []\<rparr>
              else
                (case pass2 scal vmax_override frame_comparison_step moving_average_window
                        averaging_method (overall_max_mag st) (frames_data st) of
                   Inl e \<Rightarrow> Inl e
                 | Inr imgs \<Rightarrow>
                     Inr \<lparr>released = True,
                          printed =
                            [done,
                             ProcessingComplete
                               (int (length (frames_data st)) - moving_average_window + 1)],
                          saved = imgs\<rparr>))))"

section \<open>\<open>create_video_from_images\<close>\<close>








section \<open>The PIV stage of \<open>main\<close>\<close>

text \<open>The values that \<open>json.loads\<close> produces; an object is the list of its items.\<close>

datatype json =
    JNull
  | JBool bool
  | JNum real
  | JStr string
  | JArr "json list"
  | JObj "(string \<times> json) list"

fun truthy :: "json \<Rightarrow> bool" where
  "truthy JNull = False"
| "truthy (JBool b) = b"
| "truthy (JNum r) = (r \<noteq> 0)"
| "truthy (JStr s) = (s \<noteq> [])"
| "truthy (JArr xs) = (xs \<noteq> [])"
| "truthy (JObj kvs) = (kvs \<noteq> [])"

text \<open>\<open>d.get(key, default)\<close> on a dictionary, and \<open>x[key]\<close> with a string key.\<close>

definition dict_get :: "(string \<times> json) list \<Rightarrow> string \<Rightarrow> json \<Rightarrow> json" where
  "dict_get d k dflt = (case map_of d k of None \<Rightarrow> dflt | Some v \<Rightarrow> v)"

definition subscript :: "json \<Rightarrow> string \<Rightarrow> exn + json" where
  "subscript x k =
     (case x of
        JObj d \<Rightarrow> (case map_of d k of None \<Rightarrow> Inl (KeyError k) | Some v \<Rightarrow> Inr v)
      | _ \<Rightarrow> Inl TypeError)"

text \<open>\<open>os.path.join(project_root, x)\<close>: TypeError unless \<open>x\<close> is a string.\<close>

definition path_join :: "string \<Rightarrow> json \<Rightarrow> exn + string" where
  "path_join base x =
     (case x of
        JStr p \<Rightarrow>
          Inr (if p \<noteq> [] \<and> hd p = CHR ''/'' then p
               else if base = [] \<or> last base = CHR ''/'' then base @ p
               else base @ ''/'' @ p)
      | _ \<Rightarrow> Inl TypeError)"

text \<open>
  The parameters of \<open>analyze_and_save_frames\<close>, each with whether it has a default, and a
  call with keyword arguments only: TypeError on a keyword that is not a parameter and
  on a parameter without default that is not given; otherwise the body runs.
\<close>

definition analyze_signature :: "(string \<times> bool) list" where
  "analyze_signature =
     [(''video_path'', False), (''output_dir'', False), (''scaling_factor'', False),
      (''vmax_override'', True), (''frame_comparison_step'', True),
      (''moving_average_window'', True), (''averaging_method'', True)]"

definition call_with_keywords ::
  "(string \<times> bool) list \<Rightarrow> (string \<times> 'v) list \<Rightarrow> ((string \<times> 'v) list \<Rightarrow> exn + 'r) \<Rightarrow> exn + 'r" where
  "call_with_keywords sig kwargs body =
     (if \<exists>k \<in> set (map fst kwargs). k \<notin> set (map fst sig) then Inl TypeError
      else if \<exists>p \<in> set sig. \<not> snd p \<and> fst p \<notin> set (map fst kwargs) then Inl TypeError
      else body kwargs)"

text \<open>
  Step 5 of \<open>main\<close>. \<open>body\<close> is the body of \<open>analyze_and_save_frames\<close> on its bound
  arguments. The two handlers end the process with \<open>sys.exit(1)\<close>.
\<close>

datatype handler = MissingParameter string | UnexpectedError exn

datatype 'r stage = Skipped | Completed 'r | SysExit nat handler

definition piv_call ::
  "(string \<times> json) list \<Rightarrow> string \<Rightarrow> ((string \<times> json) list \<Rightarrow> exn + 'r) \<Rightarrow> exn + 'r" where
  "piv_call execution_params project_root body =
     (case subscript (JObj execution_params) ''piv_analysis'' of
        Inl e \<Rightarrow> Inl e
      | Inr piv_params \<Rightarrow>
     (case subscript piv_params ''video_path'' of
        Inl e \<Rightarrow> Inl e
      | Inr vp \<Rightarrow>
     (case path_join project_root vp of
        Inl e \<Rightarrow> Inl e
      | Inr video_path \<Rightarrow>
     (case subscript piv_params ''output_dir'' of
        Inl e \<Rightarrow> Inl e
      | Inr od \<Rightarrow>
     (case path_join project_root od of
        Inl e \<Rightarrow> Inl e
      | Inr output_dir \<Rightarrow>
     (case piv_params of
        JObj d \<Rightarrow>
          call_with_keywords analyze_signature
            [(''video_path'', JStr video_path),
             (''output_dir'', JStr output_dir),
             (''scaling_factor'', dict_get d ''scaling_factor'' (JNum 1)),
             (''vmax_override'', dict_get d ''vmax'' JNull),
             (''frame_comparison_step'', dict_get d ''frame_comparison_step'' (JNum 1)),
             (''moving_average_window'', dict_get d ''moving_average_window'' (JNum 1)),
             (''averaging_method'', dict_get d ''averaging_method'' (JStr ''mean'')),
             (''piv_params'', dict_get d ''piv_parameters'' (JObj []))]
            body
      | _ \<Rightarrow> Inl AttributeError))))))"

definition piv_stage ::
  "(string \<times> json) list \<Rightarrow> (string \<times> json) list \<Rightarrow> string \<Rightarrow>
   ((string \<times> json) list \<Rightarrow> exn + 'r) \<Rightarrow> 'r stage" where
  "piv_stage exec_flags execution_params project_root body =
     (if truthy (dict_get exec_flags ''piv_analysis'' (JBool False))
      then (case piv_call execution_params project_root body of
              Inl (KeyError k) \<Rightarrow> SysExit 1 (MissingParameter k)
            | Inl e \<Rightarrow> SysExit 1 (UnexpectedError e)
            | Inr r \<Rightarrow> Completed r)
      else Skipped)"

section \<open>Notions used in the statements\<close>

text \<open>Every field that the estimation returns has at least one cell.\<close>

definition nonempty_fields :: "('f \<Rightarrow> 'f \<Rightarrow> grid \<times> grid) \<Rightarrow> bool" where
  "nonempty_fields est =
     (\<forall>a b. concat (magnitude (fst (est a b)) (snd (est a b))) \<noteq> [])"

text \<open>The entry of \<open>frames_data\<close> for the pair of frames \<open>a\<close>, \<open>b\<close> under index \<open>idx\<close>.\<close>

definition pair_result ::
  "('f \<Rightarrow> 'f \<Rightarrow> grid \<times> grid) \<Rightarrow> 'f \<Rightarrow> 'f \<Rightarrow> nat \<Rightarrow> 'f frame_result" where
  "pair_result est a b idx =
     \<lparr>fr_u = fst (est a b), fr_v = snd (est a b), fr_bg = a, fr_frame_index = idx\<rparr>"

text \<open>The real number that \<open>nan_to_num\<close> makes of a cell.\<close>

definition num :: "float64 \<Rightarrow> real" where
  "num x = (case nan_to_num x of Finite r \<Rightarrow> r | _ \<Rightarrow> 0)"

text \<open>The scaled magnitudes of one entry of \<open>frames_data\<close>, and of all entries.\<close>

definition field_magnitudes :: "(float64 \<Rightarrow> float64) \<Rightarrow> 'f frame_result \<Rightarrow> float64 list" where
  "field_magnitudes scal fr =
     concat (magnitude (map (map scal) (fr_u fr)) (map (map scal) (fr_v fr)))"

definition all_magnitudes :: "(float64 \<Rightarrow> float64) \<Rightarrow> 'f frame_result list \<Rightarrow> float64 list" where
  "all_magnitudes scal fd = concat (map (field_magnitudes scal) fd)"

text \<open>
  The reading of the running maximum in which every magnitude that is not finite counts
  as zero, for comparison with what pass 1 computes.
\<close>

definition finite_or_zero :: "float64 \<Rightarrow> real" where
  "finite_or_zero x = (case x of Finite r \<Rightarrow> r | _ \<Rightarrow> 0)"

definition claimed_overall_max :: "(float64 \<Rightarrow> float64) \<Rightarrow> 'f frame_result list \<Rightarrow> real" where
  "claimed_overall_max scal fd = Max (set (map finite_or_zero (all_magnitudes scal fd)))"

text \<open>The image that pass 2 saves for a window, given the two aggregated components.\<close>

definition window_image ::
  "(float64 \<Rightarrow> float64) \<Rightarrow> int \<Rightarrow> int \<Rightarrow> string \<Rightarrow> float64 \<Rightarrow> 'f frame_result \<Rightarrow> grid \<Rightarrow> grid \<Rightarrow>
   string \<times> 'f image" where
  "window_image scal s w m vmax base uagg vagg =
     (image_name (fr_frame_index base),
      \<lparr>img_bg = fr_bg base,
       img_u = map (map nan_to_num) (map (map scal) uagg),
       img_v = map (map fneg) (map (map nan_to_num) (map (map scal) vagg)),
       img_color = map (map nan_to_num) (magnitude (map (map scal) uagg) (map (map scal) vagg)),
       img_clim = vmax,
       img_scale = (if flt (Finite 0) vmax then times20 vmax else Finite 30),
       img_title =
         (if 1 < w then WindowTitle (if m = ''median'' then ''Median'' else ''Averaged'') w
                         (fr_frame_index base)
          else PairTitle (fr_frame_index base) (int (fr_frame_index base) + s))\<rparr>)"

text \<open>All entries of \<open>frames_data\<close> have fields of one shape.\<close>

definition same_shapes :: "'f frame_result list \<Rightarrow> bool" where
  "same_shapes fd =
     (\<forall>fr \<in> set fd. shape (fr_u fr) = shape (fr_u (hd fd)) \<and>
                     shape (fr_v fr) = shape (fr_v (hd fd)))"


text \<open>A cell that is neither NaN nor infinite, and an array of such cells.\<close>

fun is_finite :: "float64 \<Rightarrow> bool" where
  "is_finite (Finite r) = True"
| "is_finite x = False"

definition finite_grid :: "grid \<Rightarrow> bool" where
  "finite_grid g = list_all (list_all is_finite) g"

section \<open>Pass 1: the pairs and the running maximum\<close>

lemma fill_buffer_take: "fill_buffer n cap buf = (buf @ take n cap, drop n cap)"
  by (induction n cap buf rule: fill_buffer.induct) (auto simp: cap_read_def split: list.splits)

lemma concat_map2_empty:
  "(concat (map2 (map2 h) (map (map f) us) (map (map g) vs)) = []) =
   (concat (map2 (map2 k) us vs) = [])"
proof (induction us arbitrary: vs)
  case Nil
  then show ?case by simp
next
  case (Cons u us)
  then show ?case by (cases vs) auto
qed

lemma magnitude_scal_nonempty:
  "concat (magnitude us vs) \<noteq> [] \<Longrightarrow>
   concat (magnitude (map (map f) us) (map (map g) vs)) \<noteq> []"
  unfolding magnitude_def using concat_map2_empty[of mag f us g vs mag] by blast

lemma nan_to_num_num: "nan_to_num x = Finite (num x)"
  by (cases x) (auto simp: num_def)

lemma flt_Finite: "flt (Finite a) (Finite b) = (a < b)"
  by (simp add: flt_def)

lemma foldl_pick_max:
  "foldl (\<lambda>m x. if flt m x then x else m) (Finite a) (map Finite rs) =
   Finite (Max (set (a # rs)))"
proof (induction rs arbitrary: a)
  case Nil
  then show ?case by simp
next
  case (Cons r rs)
  have m: "Max (set (a # r # rs)) = Max (set (max a r # rs))"
  proof (cases "rs = []")
    case True
    then show ?thesis by simp
  next
    case False
    then have "Max (insert a (insert r (set rs))) = max a (max r (Max (set rs)))"
      by simp
    moreover have "Max (insert (max a r) (set rs)) = max (max a r) (Max (set rs))"
      using False by simp
    ultimately show ?thesis by (simp add: max.assoc)
  qed
  have "(if flt (Finite a) (Finite r) then Finite r else Finite a) = Finite (max a r)"
    by (simp add: max_def flt_Finite)
  then have "foldl (\<lambda>m x. if flt m x then x else m) (Finite a) (map Finite (r # rs))
      = foldl (\<lambda>m x. if flt m x then x else m) (Finite (max a r)) (map Finite rs)"
    by (simp only: list.map foldl_Cons)
  also have "\<dots> = Finite (Max (set (max a r # rs)))"
    by (rule Cons)
  finally show ?case by (simp only: m)
qed

lemma filter_not_NaN_Finite: "filter (\<lambda>x. x \<noteq> NaN) (map Finite rs) = map Finite rs"
  by (induction rs) auto

lemma nanmax_all_finite:
  assumes "concat g = map Finite (a # as)"
  shows "nanmax g = Inr (Finite (Max (set (a # as))))"
proof -
  have "nanmax g = Inr (foldl (\<lambda>m x. if flt m x then x else m) (Finite a) (map Finite as))"
    unfolding nanmax_def Let_def assms filter_not_NaN_Finite by simp
  then show ?thesis by (simp only: foldl_pick_max)
qed

lemma concat_nan_to_num: "concat (map (map nan_to_num) g) = map Finite (map num (concat g))"
proof (induction g)
  case Nil
  then show ?case by simp
next
  case (Cons r g)
  have "map nan_to_num r = map Finite (map num r)"
    by (induction r) (simp_all add: nan_to_num_num)
  then show ?case using Cons by simp
qed

lemma nanmax_nan_to_num:
  assumes "concat g \<noteq> []"
  shows "nanmax (map (map nan_to_num) g) = Inr (Finite (Max (set (map num (concat g)))))"
proof -
  obtain a as where c: "map num (concat g) = a # as"
    using assms by (cases "concat g") auto
  have "nanmax (map (map nan_to_num) g) = Inr (Finite (Max (set (a # as))))"
    by (rule nanmax_all_finite) (simp only: concat_nan_to_num c)
  then show ?thesis by (simp only: c)
qed

lemma nanmax_nan_to_num_empty:
  assumes "concat g = []"
  shows "nanmax (map (map nan_to_num) g) = Inl ValueError"
proof -
  have "concat (map (map nan_to_num) g) = []"
    by (simp only: concat_nan_to_num assms list.map)
  then show ?thesis by (simp add: nanmax_def)
qed

lemma py_get_nat: "0 \<le> i \<Longrightarrow> nat i < length xs \<Longrightarrow> py_get xs i = Inr (xs ! nat i)"
  by (simp add: py_get_def Let_def)

lemma py_get_0: "xs \<noteq> [] \<Longrightarrow> py_get xs 0 = Inr (xs ! 0)"
  by (simp add: py_get_def Let_def)

text \<open>What one pair does to the state, when the buffer is long enough.\<close>

lemma analyze_pair_ok:
  assumes ne: "nonempty_fields est" and s: "0 \<le> s" "nat s < length buf"
    and ov: "overall_max_mag st = Finite a"
  shows "analyze_pair s est scal buf st =
     Inr \<lparr>frames_data = frames_data st @
            [pair_result est (buf ! 0) (buf ! nat s) (Suc (frame_index st))],
          overall_max_mag =
            Finite (max a (Max (set (map num (field_magnitudes scal
               (pair_result est (buf ! 0) (buf ! nat s) (Suc (frame_index st)))))))),
          frame_index = Suc (frame_index st)\<rparr>"
proof -
  obtain us vs where e: "est (buf ! 0) (buf ! nat s) = (us, vs)"
    by (cases "est (buf ! 0) (buf ! nat s)")
  have g0: "py_get buf 0 = Inr (buf ! 0)"
    using s by (intro py_get_0) auto
  have gs: "py_get buf s = Inr (buf ! nat s)"
    using s by (rule py_get_nat)
  have "concat (magnitude us vs) \<noteq> []"
    using ne e unfolding nonempty_fields_def by (metis fst_conv snd_conv)
  then have "concat (magnitude (map (map scal) us) (map (map scal) vs)) \<noteq> []"
    by (rule magnitude_scal_nonempty)
  then have nm: "nanmax (map (map nan_to_num) (magnitude (map (map scal) us) (map (map scal) vs)))
      = Inr (Finite (Max (set (map num (concat (magnitude (map (map scal) us) (map (map scal) vs)))))))"
    by (rule nanmax_nan_to_num)
  have fm: "field_magnitudes scal (pair_result est (buf ! 0) (buf ! nat s) k)
      = concat (magnitude (map (map scal) us) (map (map scal) vs))" for k
    by (simp add: field_magnitudes_def pair_result_def e)
  show ?thesis
    unfolding analyze_pair_def g0 gs
    by (simp add: e nm Let_def fm ov flt_Finite max_def) (simp add: pair_result_def e)
qed

lemma Max_insert_split:
  assumes "finite A" "A \<noteq> {}" "finite B"
  shows "Max (insert (max (a::real) (Max A)) B) = Max (insert a (A \<union> B))"
proof (cases "B = {}")
  case True
  then show ?thesis using assms by (simp add: max.commute)
next
  case False
  have "Max (insert a (A \<union> B)) = max a (max (Max A) (Max B))"
    using assms False by (simp add: Max_Un)
  moreover have "Max (insert (max a (Max A)) B) = max (max a (Max A)) (Max B)"
    using assms False by simp
  ultimately show ?thesis by (simp add: max.assoc)
qed

lemma field_magnitudes_nonempty:
  "nonempty_fields est \<Longrightarrow> field_magnitudes scal (pair_result est a b k) \<noteq> []"
  unfolding field_magnitudes_def pair_result_def nonempty_fields_def
  using magnitude_scal_nonempty by fastforce

lemma pass1_loop_ok:
  assumes ne: "nonempty_fields est" and s: "0 \<le> s"
  shows "length buf = Suc (nat s) \<Longrightarrow> overall_max_mag st = Finite a \<Longrightarrow>
     \<exists>st'. pass1_loop s est scal buf cap st = Inr st' \<and>
       frames_data st' = frames_data st @
          map (\<lambda>i. pair_result est ((buf @ cap) ! i) ((buf @ cap) ! (i + nat s))
                     (frame_index st + i + 1))
              [0..<Suc (length cap)] \<and>
       frame_index st' = frame_index st + Suc (length cap) \<and>
       overall_max_mag st' =
         Finite (Max (insert a (set (map num (all_magnitudes scal
           (map (\<lambda>i. pair_result est ((buf @ cap) ! i) ((buf @ cap) ! (i + nat s))
                     (frame_index st + i + 1))
              [0..<Suc (length cap)]))))))"
proof (induction cap arbitrary: buf st a)
  case Nil
  have "nat s < length buf" using Nil by simp
  from analyze_pair_ok[OF ne s this Nil(2), of scal]
  show ?case
    using field_magnitudes_nonempty[OF ne, of scal "buf ! 0" "buf ! nat s" "Suc (frame_index st)"]
    by (simp add: nth_append all_magnitudes_def)
next
  case (Cons f cap)
  let ?r0 = "pair_result est (buf ! 0) (buf ! nat s) (Suc (frame_index st))"
  let ?a1 = "max a (Max (set (map num (field_magnitudes scal ?r0))))"
  let ?st1 = "\<lparr>frames_data = frames_data st @ [?r0], overall_max_mag = Finite ?a1,
          frame_index = Suc (frame_index st)\<rparr>"
  let ?rest = "map (\<lambda>i. pair_result est (((tl buf @ [f]) @ cap) ! i)
                 (((tl buf @ [f]) @ cap) ! (i + nat s)) (frame_index ?st1 + i + 1))
              [0..<Suc (length cap)]"
  have lt: "nat s < length buf" using Cons.prems by simp
  have a: "analyze_pair s est scal buf st = Inr ?st1"
    using analyze_pair_ok[OF ne s lt Cons.prems(2), of scal] by simp
  obtain b0 bs where buf: "buf = b0 # bs" using Cons.prems by (cases buf) auto
  have len: "length (tl buf @ [f]) = Suc (nat s)" using Cons.prems buf by simp
  have ov1: "overall_max_mag ?st1 = Finite ?a1" by simp
  from Cons.IH[OF len ov1] obtain st' where
    l: "pass1_loop s est scal (tl buf @ [f]) cap ?st1 = Inr st'" and
    fd: "frames_data st' = frames_data ?st1 @ ?rest" and
    fi: "frame_index st' = frame_index ?st1 + Suc (length cap)" and
    ov: "overall_max_mag st' = Finite (Max (insert ?a1 (set (map num (all_magnitudes scal ?rest)))))"
    by blast
  have sh: "map (\<lambda>i. pair_result est ((buf @ f # cap) ! i) ((buf @ f # cap) ! (i + nat s))
                     (frame_index st + i + 1))
              [0..<Suc (length (f # cap))] = ?r0 # ?rest" (is "?L = _")
  proof -
    have "?L = pair_result est ((buf @ f # cap) ! 0) ((buf @ f # cap) ! nat s)
                 (Suc (frame_index st)) #
        map (\<lambda>i. pair_result est ((buf @ f # cap) ! Suc i)
               ((buf @ f # cap) ! (Suc i + nat s)) (frame_index st + Suc i + 1))
          [0..<Suc (length cap)]"
      unfolding list.size by (subst map_upt_Suc) simp
    moreover have "(buf @ f # cap) ! 0 = buf ! 0" using buf by simp
    moreover have "(buf @ f # cap) ! nat s = buf ! nat s" using lt by (simp add: nth_append)
    moreover have "\<And>i. (buf @ f # cap) ! Suc i = ((tl buf @ [f]) @ cap) ! i" using buf by simp
    ultimately show ?thesis by simp
  qed
  have mx: "Max (insert ?a1 (set (map num (all_magnitudes scal ?rest))))
      = Max (insert a (set (map num (all_magnitudes scal (?r0 # ?rest)))))"
  proof -
    have ne0: "set (map num (field_magnitudes scal ?r0)) \<noteq> {}"
      using field_magnitudes_nonempty[OF ne] by simp
    have "set (map num (all_magnitudes scal (?r0 # ?rest)))
        = set (map num (field_magnitudes scal ?r0)) \<union> set (map num (all_magnitudes scal ?rest))"
      by (simp add: all_magnitudes_def)
    then show ?thesis
      using Max_insert_split[OF _ ne0, of "set (map num (all_magnitudes scal ?rest))" a]
      by simp
  qed
  have "pass1_loop s est scal buf (f # cap) st = Inr st'"
    using a l by simp
  moreover have "frames_data st' = frames_data st @ ?r0 # ?rest"
    using fd by simp
  moreover have "frame_index st' = frame_index st + Suc (length (f # cap))"
    using fi by simp
  moreover have "overall_max_mag st' =
      Finite (Max (insert a (set (map num (all_magnitudes scal (?r0 # ?rest))))))"
    using ov mx by simp
  ultimately show ?case unfolding sh by blast
qed

lemma pass1_ok:
  assumes ne: "nonempty_fields est" and s: "0 \<le> s" and k: "s < int (length frames)"
  shows "\<exists>st. pass1 s est scal frames = Inr (Some st) \<and>
       frames_data st =
          map (\<lambda>i. pair_result est (frames ! i) (frames ! (i + nat s)) (i + 1))
              [0..<length frames - nat s] \<and>
       overall_max_mag st =
         Finite (Max (insert 0 (set (map num (all_magnitudes scal (frames_data st))))))"
proof -
  let ?buf = "take (nat (s + 1)) frames" and ?cap = "drop (nat (s + 1)) frames"
  let ?st0 = "\<lparr>frames_data = [], overall_max_mag = Finite 0, frame_index = 0\<rparr>"
  have len: "length ?buf = Suc (nat s)" using s k by simp
  have ov: "overall_max_mag ?st0 = Finite 0" by simp
  have cnt: "Suc (length ?cap) = length frames - nat s" using s k by simp
  from pass1_loop_ok[OF ne s len ov, of scal ?cap] obtain st' where
    l: "pass1_loop s est scal ?buf ?cap ?st0 = Inr st'" and
    fd: "frames_data st' =
          map (\<lambda>i. pair_result est (frames ! i) (frames ! (i + nat s)) (i + 1))
              [0..<length frames - nat s]" and
    ovm: "overall_max_mag st' =
         Finite (Max (insert 0 (set (map num (all_magnitudes scal
           (map (\<lambda>i. pair_result est (frames ! i) (frames ! (i + nat s)) (i + 1))
              [0..<length frames - nat s]))))))"
    unfolding cnt by auto
  have "\<not> int (length ?buf) \<le> s" using len by simp
  then have "pass1 s est scal frames = Inr (Some st')"
    unfolding pass1_def fill_buffer_take using l by (simp add: Let_def)
  then show ?thesis using fd ovm by simp
qed

lemma pass1_short:
  assumes "int (length frames) \<le> s"
  shows "pass1 s est scal frames = Inr None"
proof -
  have "take (nat (s + 1)) frames = frames" using assms by simp
  then show ?thesis unfolding pass1_def fill_buffer_take using assms by (simp add: Let_def)
qed

text \<open>
  Claim C3. For a stride \<open>s \<ge> 1\<close> and a video of \<open>K\<close> frames, pass 1 analyzes \<open>K - s\<close>
  pairs when \<open>K > s\<close>: the pair at position \<open>i\<close> (from 0) is made of the frames \<open>i\<close> and
  \<open>i + s\<close> and is recorded under the index \<open>i + 1\<close>. Otherwise it takes the early return and
  analyzes no pair.
\<close>

theorem analyzed_pairs_count:
  assumes "1 \<le> s" and "nonempty_fields est"
  shows "(s < int (length frames) \<longrightarrow>
           (\<exists>st. pass1 s est scal frames = Inr (Some st) \<and>
                 length (frames_data st) = length frames - nat s \<and>
                 (\<forall>i < length frames - nat s.
                    frames_data st ! i =
                      pair_result est (frames ! i) (frames ! (i + nat s)) (i + 1)))) \<and>
         (int (length frames) \<le> s \<longrightarrow> pass1 s est scal frames = Inr None)"
proof (intro conjI impI)
  assume k: "s < int (length frames)"
  have s: "0 \<le> s" using assms(1) by simp
  from pass1_ok[OF assms(2) s k, of scal] obtain st where
    p: "pass1 s est scal frames = Inr (Some st)" and
    fd: "frames_data st =
          map (\<lambda>i. pair_result est (frames ! i) (frames ! (i + nat s)) (i + 1))
              [0..<length frames - nat s]"
    by blast
  show "\<exists>st. pass1 s est scal frames = Inr (Some st) \<and>
                 length (frames_data st) = length frames - nat s \<and>
                 (\<forall>i < length frames - nat s.
                    frames_data st ! i =
                      pair_result est (frames ! i) (frames ! (i + nat s)) (i + 1))"
    using p fd by simp
next
  assume "int (length frames) \<le> s"
  then show "pass1 s est scal frames = Inr None" by (rule pass1_short)
qed

theorem analyzed_pairs_count_witness:
  "(1::int) \<le> 1 \<and> nonempty_fields (\<lambda>(a::nat) (b::nat). ([[Finite 1]], [[Finite 0]])) \<and>
   (\<exists>st. pass1 1 (\<lambda>(a::nat) (b::nat). ([[Finite 1]], [[Finite 0]])) (\<lambda>x. x) [0, 1, 2] = Inr (Some st) \<and>
         length (frames_data st) = 2 \<and> fr_frame_index (frames_data st ! 1) = 2) \<and>
   pass1 1 (\<lambda>(a::nat) (b::nat). ([[Finite 1]], [[Finite 0]])) (\<lambda>x. x) [0] = Inr None"
proof -
  let ?est = "\<lambda>(a::nat) (b::nat). ([[Finite 1]], [[Finite 0]])"
  have h1: "(1::int) \<le> 1" by simp
  have h2: "nonempty_fields ?est" by (simp add: nonempty_fields_def magnitude_def)
  have a: "\<exists>st. pass1 1 ?est (\<lambda>x. x) [0, 1, 2] = Inr (Some st) \<and>
         length (frames_data st) = 2 \<and> fr_frame_index (frames_data st ! 1) = 2"
    using analyzed_pairs_count[OF h1 h2, of "[0, 1, 2]" "\<lambda>x. x"]
    by (auto simp: pair_result_def)
  have b: "pass1 1 ?est (\<lambda>x. x) [0] = Inr None"
    using analyzed_pairs_count[OF h1 h2, of "[0]" "\<lambda>x. x"] by simp
  show ?thesis using h1 h2 a b by blast
qed

lemma float_max_pos: "0 < float_max"
  by (simp add: float_max_def)

lemma num_mag_nonneg: "0 \<le> num (mag a b)"
  using float_max_pos by (cases a; cases b) (simp_all add: num_def)

lemma magnitude_cells_nonneg:
  "x \<in> set (concat (magnitude us vs)) \<Longrightarrow> 0 \<le> num x"
proof -
  assume "x \<in> set (concat (magnitude us vs))"
  then have "\<exists>a b. x = mag a b"
    unfolding magnitude_def by auto
  then show ?thesis using num_mag_nonneg by auto
qed

lemma all_magnitudes_nonneg:
  "x \<in> set (all_magnitudes scal fd) \<Longrightarrow> 0 \<le> num x"
  unfolding all_magnitudes_def field_magnitudes_def
  using magnitude_cells_nonneg by auto

lemma analyze_pair_monotone:
  assumes "analyze_pair s est scal buf st = Inr st'" and "overall_max_mag st = Finite a"
  shows "\<exists>b. overall_max_mag st' = Finite b \<and> a \<le> b"
proof -
  from assms(1) obtain fa fb where
    g0: "py_get buf 0 = Inr fa" and gs: "py_get buf s = Inr fb"
    unfolding analyze_pair_def by (auto split: sum.splits)
  obtain us vs where e: "est fa fb = (us, vs)" by (cases "est fa fb")
  let ?m = "magnitude (map (map scal) us) (map (map scal) vs)"
  from assms(1) obtain cur where
    nm: "nanmax (map (map nan_to_num) ?m) = Inr cur" and
    ov: "overall_max_mag st' = (if flt (overall_max_mag st) cur then cur else overall_max_mag st)"
    unfolding analyze_pair_def g0 gs by (auto simp: e Let_def split: sum.splits)
  have "concat ?m \<noteq> []"
    using nm nanmax_nan_to_num_empty[of ?m] by auto
  then have "cur = Finite (Max (set (map num (concat ?m))))"
    using nm nanmax_nan_to_num[of ?m] by simp
  then show ?thesis using ov assms(2) by (auto simp: flt_Finite)
qed

text \<open>
  Claim C2, as amended. Each processed pair leaves \<open>overall_max_mag\<close> at least as large
  as it was, and after the last pair it is the largest scaled magnitude over all cells
  of all pairs, where \<open>nan_to_num\<close> counts a NaN magnitude as zero and an infinite one as
  the largest finite float64.
\<close>

theorem overall_max_mag_is_maximum:
  assumes "0 \<le> s" and "nonempty_fields est" and "s < int (length frames)"
  shows "(\<forall>buf st st' a. analyze_pair s est scal buf st = Inr st' \<and> overall_max_mag st = Finite a
            \<longrightarrow> (\<exists>b. overall_max_mag st' = Finite b \<and> a \<le> b)) \<and>
         (\<exists>st. pass1 s est scal frames = Inr (Some st) \<and>
               overall_max_mag st =
                 Finite (Max (set (map num (all_magnitudes scal (frames_data st))))))"
proof (intro conjI allI impI)
  fix buf st st' a
  assume "analyze_pair s est scal buf st = Inr st' \<and> overall_max_mag st = Finite a"
  then show "\<exists>b. overall_max_mag st' = Finite b \<and> a \<le> b"
    using analyze_pair_monotone by blast
next
  from pass1_ok[OF assms(2) assms(1) assms(3), of scal] obtain st where
    p: "pass1 s est scal frames = Inr (Some st)" and
    fd: "frames_data st =
          map (\<lambda>i. pair_result est (frames ! i) (frames ! (i + nat s)) (i + 1))
              [0..<length frames - nat s]" and
    ov: "overall_max_mag st =
         Finite (Max (insert 0 (set (map num (all_magnitudes scal (frames_data st))))))"
    by blast
  let ?S = "set (map num (all_magnitudes scal (frames_data st)))"
  have "0 < length frames - nat s" using assms(1,3) by linarith
  then have "frames_data st \<noteq> []" using fd by simp
  then obtain r rs where rr: "frames_data st = r # rs" by (cases "frames_data st") auto
  have "r \<in> set (frames_data st)" using rr by simp
  then obtain i where "r = pair_result est (frames ! i) (frames ! (i + nat s)) (i + 1)"
    unfolding fd by auto
  then have "field_magnitudes scal r \<noteq> []"
    using field_magnitudes_nonempty[OF assms(2)] by simp
  then have ne: "?S \<noteq> {}" using rr by (simp add: all_magnitudes_def)
  have "\<forall>x \<in> ?S. 0 \<le> x" using all_magnitudes_nonneg by auto
  then have "0 \<le> Max ?S" using ne by (meson List.finite_set Max_in)
  then have "Max (insert 0 ?S) = Max ?S" using ne by (simp add: max_def)
  then show "\<exists>st. pass1 s est scal frames = Inr (Some st) \<and>
               overall_max_mag st =
                 Finite (Max (set (map num (all_magnitudes scal (frames_data st)))))"
    using p ov by auto
qed


text \<open>
  Claim C2 as stated fails on an infinite magnitude: it enters the running maximum as the
  largest finite float64, not as zero.
\<close>

theorem overall_max_mag_counterexample:
  "pass1 1 (\<lambda>(a::nat) (b::nat). ([[PosInf]], [[Finite 0]])) (\<lambda>x. x) [0, 1] =
     Inr (Some \<lparr>frames_data =
                  [\<lparr>fr_u = [[PosInf]], fr_v = [[Finite 0]], fr_bg = 0, fr_frame_index = 1\<rparr>],
                overall_max_mag = Finite float_max, frame_index = 1\<rparr>) \<and>
   Finite float_max \<noteq>
     Finite (claimed_overall_max (\<lambda>x. x)
       [\<lparr>fr_u = [[PosInf]], fr_v = [[Finite 0]], fr_bg = 0::nat, fr_frame_index = 1\<rparr>])"
proof -
  show ?thesis
    using float_max_pos
    by (simp add: pass1_def fill_buffer_take analyze_pair_def py_get_def magnitude_def nanmax_def flt_def
        claimed_overall_max_def all_magnitudes_def field_magnitudes_def finite_or_zero_def
        cap_read_def Let_def)
qed

theorem overall_max_mag_is_maximum_witness:
  "(0::int) \<le> 1 \<and> nonempty_fields (\<lambda>(a::nat) (b::nat). ([[Finite 1]], [[Finite 0]])) \<and>
   1 < int (length [0::nat, 1, 2]) \<and>
   (\<exists>b. overall_max_mag \<lparr>frames_data = [\<lparr>fr_u = [[Finite 1]], fr_v = [[Finite 0]], fr_bg = 0::nat, fr_frame_index = 1\<rparr>],
           overall_max_mag = Finite 1, frame_index = 1\<rparr> = Finite b \<and> 0 \<le> b) \<and>
   (\<exists>st. pass1 1 (\<lambda>(a::nat) (b::nat). ([[Finite 1]], [[Finite 0]])) (\<lambda>x. x) [0, 1, 2] = Inr (Some st) \<and>
         overall_max_mag st = Finite (Max (set (map num (all_magnitudes (\<lambda>x. x) (frames_data st))))))"
proof -
  let ?est = "\<lambda>(a::nat) (b::nat). ([[Finite 1]], [[Finite 0]])"
  let ?st0 = "\<lparr>frames_data = ([]::nat frame_result list), overall_max_mag = Finite 0, frame_index = 0\<rparr>"
  let ?st1 = "\<lparr>frames_data = [\<lparr>fr_u = [[Finite 1]], fr_v = [[Finite 0]], fr_bg = 0::nat, fr_frame_index = 1\<rparr>],
           overall_max_mag = Finite 1, frame_index = 1\<rparr>"
  have h1: "(0::int) \<le> 1" by simp
  have h2: "nonempty_fields ?est" by (simp add: nonempty_fields_def magnitude_def)
  have h3: "1 < int (length [0::nat, 1, 2])" by simp
  have step: "analyze_pair 1 ?est (\<lambda>x. x) [0, 1] ?st0 = Inr ?st1 \<and> overall_max_mag ?st0 = Finite 0"
    by (simp add: analyze_pair_def py_get_def magnitude_def nanmax_def flt_def Let_def)
  note t = overall_max_mag_is_maximum[OF h1 h2 h3, of "\<lambda>x. x"]
  from t step have "\<exists>b. overall_max_mag ?st1 = Finite b \<and> 0 \<le> b" by blast
  moreover from t have "\<exists>st. pass1 1 ?est (\<lambda>x. x) [0, 1, 2] = Inr (Some st) \<and>
         overall_max_mag st = Finite (Max (set (map num (all_magnitudes (\<lambda>x. x) (frames_data st)))))"
    by blast
  ultimately show ?thesis using h1 h2 h3 by blast
qed

section \<open>Pass 2: the windows and their images\<close>

lemma py_slice_window:
  assumes "0 \<le> w" "int i + w \<le> int (length xs)"
  shows "py_slice xs (int i) (int i + w) = take (nat w) (drop i xs)"
proof -
  have "nat (int i + w - int i) = nat w" by simp
  then show ?thesis using assms by (simp add: py_slice_def Let_def min_def)
qed

lemma stack_ok:
  assumes "gs \<noteq> []" "\<forall>g \<in> set gs. shape g = sh"
  shows "stack gs = Inr gs"
proof -
  have "hd gs \<in> set gs" using assms(1) by simp
  then have "shape (hd gs) = sh" using assms(2) by blast
  then show ?thesis using assms by (simp add: stack_def)
qed

lemma aggregate_ok:
  assumes "gs \<noteq> []" "\<forall>g \<in> set gs. shape g = sh"
  shows "aggregate m gs =
     Inr (reduce_axis0 (if m = ''median'' then nanmedian else nanmean) gs)"
  using stack_ok[OF assms] by (simp add: aggregate_def)

lemma save_image_ok:
  assumes w: "1 \<le> w" and sh: "same_shapes fd" and i: "int i + w \<le> int (length fd)"
  shows "\<exists>uagg vagg.
      aggregate m (map fr_u (take (nat w) (drop i fd))) = Inr uagg \<and>
      aggregate m (map fr_v (take (nat w) (drop i fd))) = Inr vagg \<and>
      save_image scal s w m vmax fd i = Inr (window_image scal s w m vmax (fd ! i) uagg vagg)"
proof -
  let ?win = "take (nat w) (drop i fd)"
  have sl: "py_slice fd (int i) (int i + w) = ?win"
    using w i by (intro py_slice_window) auto
  have il: "i < length fd" using w i by linarith
  then have ne: "?win \<noteq> []" using w by auto
  have h: "?win ! 0 = fd ! i" using il w ne by (simp add: hd_drop_conv_nth hd_conv_nth[symmetric])
  have g0: "py_get ?win 0 = Inr (fd ! i)" using ne h by (simp add: py_get_def Let_def)
  have sub: "set ?win \<subseteq> set fd"
    by (meson set_drop_subset set_take_subset subset_trans)
  have su: "\<forall>g \<in> set (map fr_u ?win). shape g = shape (fr_u (hd fd))"
    using sh sub unfolding same_shapes_def by auto
  have sv: "\<forall>g \<in> set (map fr_v ?win). shape g = shape (fr_v (hd fd))"
    using sh sub unfolding same_shapes_def by auto
  have neu: "map fr_u ?win \<noteq> []" and nev: "map fr_v ?win \<noteq> []" using ne by simp_all
  note au = aggregate_ok[OF neu su, of m] and av = aggregate_ok[OF nev sv, of m]
  show ?thesis
    unfolding save_image_def sl
    by (simp add: g0 au av Let_def window_image_def)
qed

lemma save_images_map:
  "(\<And>i. i \<in> set js \<Longrightarrow> save_image scal s w m vmax fd i = Inr (f i)) \<Longrightarrow>
   save_images scal s w m vmax fd js = Inr (map f js)"
  by (induction js) simp_all

lemma pass2_ok:
  assumes "1 \<le> w" and "same_shapes fd"
  shows "\<exists>imgs. pass2 scal vmax_override s w m overall fd = Inr imgs \<and>
      int (length imgs) = max (int (length fd) - w + 1) 0 \<and>
      (\<forall>i < length imgs. \<exists>uagg vagg.
          aggregate m (map fr_u (take (nat w) (drop i fd))) = Inr uagg \<and>
          aggregate m (map fr_v (take (nat w) (drop i fd))) = Inr vagg \<and>
          imgs ! i =
            window_image scal s w m (case vmax_override of None \<Rightarrow> overall | Some v \<Rightarrow> v)
              (fd ! i) uagg vagg \<and>
          fst (imgs ! i) = image_name (fr_frame_index (fd ! i)))"
proof -
  let ?vmax = "case vmax_override of None \<Rightarrow> overall | Some v \<Rightarrow> v"
  let ?n = "nat (int (length fd) - w + 1)"
  let ?f = "\<lambda>i. projr (save_image scal s w m ?vmax fd i)"
  have ok: "\<exists>uagg vagg.
      aggregate m (map fr_u (take (nat w) (drop i fd))) = Inr uagg \<and>
      aggregate m (map fr_v (take (nat w) (drop i fd))) = Inr vagg \<and>
      save_image scal s w m ?vmax fd i = Inr (window_image scal s w m ?vmax (fd ! i) uagg vagg)"
    if "i < ?n" for i
  proof -
    have "int i + w \<le> int (length fd)" using that by linarith
    then show ?thesis by (rule save_image_ok[OF assms])
  qed
  have "save_images scal s w m ?vmax fd [0..<?n] = Inr (map ?f [0..<?n])"
  proof (rule save_images_map)
    fix i assume "i \<in> set [0..<?n]"
    then have "i < ?n" by simp
    from ok[OF this] show "save_image scal s w m ?vmax fd i = Inr (?f i)" by auto
  qed
  then have p: "pass2 scal vmax_override s w m overall fd = Inr (map ?f [0..<?n])"
    by (simp add: pass2_def Let_def)
  have l: "int (length (map ?f [0..<?n])) = max (int (length fd) - w + 1) 0" by simp
  have each: "\<forall>i < length (map ?f [0..<?n]). \<exists>uagg vagg.
          aggregate m (map fr_u (take (nat w) (drop i fd))) = Inr uagg \<and>
          aggregate m (map fr_v (take (nat w) (drop i fd))) = Inr vagg \<and>
          map ?f [0..<?n] ! i = window_image scal s w m ?vmax (fd ! i) uagg vagg \<and>
          fst (map ?f [0..<?n] ! i) = image_name (fr_frame_index (fd ! i))"
  proof (intro allI impI)
    fix i assume "i < length (map ?f [0..<?n])"
    then have il: "i < ?n" by simp
    from ok[OF il] obtain uagg vagg where
      a: "aggregate m (map fr_u (take (nat w) (drop i fd))) = Inr uagg" and
      b: "aggregate m (map fr_v (take (nat w) (drop i fd))) = Inr vagg" and
      c: "save_image scal s w m ?vmax fd i = Inr (window_image scal s w m ?vmax (fd ! i) uagg vagg)"
      by blast
    have "map ?f [0..<?n] ! i = window_image scal s w m ?vmax (fd ! i) uagg vagg"
      using il c by simp
    moreover have "fst (window_image scal s w m ?vmax (fd ! i) uagg vagg)
        = image_name (fr_frame_index (fd ! i))"
      by (simp add: window_image_def)
    ultimately show "\<exists>uagg vagg.
          aggregate m (map fr_u (take (nat w) (drop i fd))) = Inr uagg \<and>
          aggregate m (map fr_v (take (nat w) (drop i fd))) = Inr vagg \<and>
          map ?f [0..<?n] ! i = window_image scal s w m ?vmax (fd ! i) uagg vagg \<and>
          fst (map ?f [0..<?n] ! i) = image_name (fr_frame_index (fd ! i))"
      using a b by auto
  qed
  show ?thesis using p l each by blast
qed

text \<open>
  Claim C4. For a window size \<open>w \<ge> 1\<close> and \<open>N\<close> results of pass 1 whose fields have one
  shape, pass 2 saves \<open>max (N - w + 1) 0\<close> images. The image at position \<open>i\<close> aggregates the
  results \<open>i\<close> to \<open>i + w - 1\<close>, and its file name and title carry the frame index
  recorded for the result at position \<open>i\<close>, the \<open>(i+1)\<close>-th pair.
\<close>

theorem pass2_images:
  assumes "1 \<le> w" and "same_shapes fd"
  shows "\<exists>imgs. pass2 scal vmax_override s w m overall fd = Inr imgs \<and>
      int (length imgs) = max (int (length fd) - w + 1) 0 \<and>
      (\<forall>i < length imgs. \<exists>uagg vagg.
          aggregate m (map fr_u (take (nat w) (drop i fd))) = Inr uagg \<and>
          aggregate m (map fr_v (take (nat w) (drop i fd))) = Inr vagg \<and>
          imgs ! i =
            window_image scal s w m (case vmax_override of None \<Rightarrow> overall | Some v \<Rightarrow> v)
              (fd ! i) uagg vagg \<and>
          fst (imgs ! i) = image_name (fr_frame_index (fd ! i)))"
  using assms by (rule pass2_ok)

theorem pass2_images_witness:
  "(1::int) \<le> 2 \<and>
   same_shapes [\<lparr>fr_u = [[Finite 1]], fr_v = [[Finite 0]], fr_bg = 0::nat, fr_frame_index = 1\<rparr>,
                \<lparr>fr_u = [[Finite 3]], fr_v = [[Finite 0]], fr_bg = 1, fr_frame_index = 2\<rparr>] \<and>
   (\<exists>imgs. pass2 (\<lambda>x. x) None 1 2 ''mean'' (Finite 3)
       [\<lparr>fr_u = [[Finite 1]], fr_v = [[Finite 0]], fr_bg = 0::nat, fr_frame_index = 1\<rparr>,
        \<lparr>fr_u = [[Finite 3]], fr_v = [[Finite 0]], fr_bg = 1, fr_frame_index = 2\<rparr>] = Inr imgs \<and>
      length imgs = 1 \<and> fst (imgs ! 0) = image_name 1)"
proof -
  let ?fd = "[\<lparr>fr_u = [[Finite 1]], fr_v = [[Finite 0]], fr_bg = 0::nat, fr_frame_index = 1\<rparr>,
              \<lparr>fr_u = [[Finite 3]], fr_v = [[Finite 0]], fr_bg = 1, fr_frame_index = 2\<rparr>]"
  have h1: "(1::int) \<le> 2" by simp
  have h2: "same_shapes ?fd" by (simp add: same_shapes_def shape_def)
  from pass2_images[OF h1 h2, of "\<lambda>x. x" None 1 "''mean''" "Finite 3"]
  obtain imgs where
    p: "pass2 (\<lambda>x. x) None 1 2 ''mean'' (Finite 3) ?fd = Inr imgs" and
    l: "int (length imgs) = max (int (length ?fd) - 2 + 1) 0" and
    e: "\<forall>i < length imgs. fst (imgs ! i) = image_name (fr_frame_index (?fd ! i))"
    by blast
  have l1: "length imgs = 1" using l by simp
  then have "fst (imgs ! 0) = image_name 1" using e by simp
  then show ?thesis using h1 h2 p l1 by blast
qed

section \<open>The whole function and the video\<close>

lemma analyze_short:
  assumes "is_opened cap" "int (length (cap_frames cap)) \<le> s"
  shows "analyze_and_save_frames cap est scal vo s w m =
     Inr \<lparr>released = True, printed = [NotEnoughFrames], saved = []\<rparr>"
  using assms pass1_short[OF assms(2), of est scal] by (simp add: analyze_and_save_frames_def)







text \<open>
  Claim C6, as amended. With fewer than \<open>s + 1\<close> frames in an opened capture, the function
  analyzes no pair and saves no image, prints the message about the missing frames,
  releases the capture and returns normally to its caller.
\<close>

theorem insufficient_frames_returns_normally:
  assumes "is_opened cap" and "int (length (cap_frames cap)) < s + 1"
  shows "analyze_and_save_frames cap est scal vmax_override s w m =
     Inr \<lparr>released = True, printed = [NotEnoughFrames], saved = []\<rparr>"
proof -
  have "int (length (cap_frames cap)) \<le> s" using assms(2) by simp
  then show ?thesis by (rule analyze_short[OF assms(1)])
qed

theorem insufficient_frames_returns_normally_witness:
  "is_opened \<lparr>is_opened = True, cap_frames = [0::nat]\<rparr> \<and>
   int (length (cap_frames \<lparr>is_opened = True, cap_frames = [0::nat]\<rparr>)) < 1 + 1 \<and>
   analyze_and_save_frames \<lparr>is_opened = True, cap_frames = [0::nat]\<rparr>
       (\<lambda>a b. ([[Finite 1]], [[Finite 0]])) (\<lambda>x. x) None 1 1 ''mean'' =
     Inr \<lparr>released = True, printed = [NotEnoughFrames], saved = []\<rparr>"
proof -
  let ?cap = "\<lparr>is_opened = True, cap_frames = [0::nat]\<rparr>"
  have h1: "is_opened ?cap" by simp
  have h2: "int (length (cap_frames ?cap)) < 1 + 1" by simp
  show ?thesis
    using h1 h2 insufficient_frames_returns_normally[OF h1 h2] by blast
qed

text \<open>
  Claim C6 as stated fails: on one frame with stride 1 the function does not raise, so its
  caller gets no error.
\<close>

theorem insufficient_frames_counterexample:
  "int (length (cap_frames \<lparr>is_opened = True, cap_frames = [0::nat]\<rparr>)) < 1 + 1 \<and>
   \<not> isl (analyze_and_save_frames \<lparr>is_opened = True, cap_frames = [0::nat]\<rparr>
       (\<lambda>a b. ([[Finite 1]], [[Finite 0]])) (\<lambda>x. x) None 1 1 ''mean'')"
  by (simp add: analyze_and_save_frames_def pass1_def fill_buffer_take)



section \<open>The PIV stage of main and the video assembly\<close>

lemma call_unexpected_keyword:
  "k \<in> set (map fst kwargs) \<Longrightarrow> k \<notin> set (map fst sig) \<Longrightarrow>
   call_with_keywords sig kwargs body = Inl TypeError"
proof -
  assume "k \<in> set (map fst kwargs)" and "k \<notin> set (map fst sig)"
  then have "\<exists>k \<in> set (map fst kwargs). k \<notin> set (map fst sig)" by blast
  then show ?thesis unfolding call_with_keywords_def by (simp only: if_True)
qed

lemma piv_params_not_a_parameter: "''piv_params'' \<notin> set (map fst analyze_signature)"
  by (simp add: analyze_signature_def)

lemma piv_call_raises: "\<exists>e. piv_call execution_params project_root body = Inl e"
  unfolding piv_call_def
  by (auto split: sum.splits json.splits
      simp: call_unexpected_keyword[OF _ piv_params_not_a_parameter])

lemma piv_call_type_error:
  assumes "map_of execution_params ''piv_analysis'' = Some (JObj d)"
    and "map_of d ''video_path'' = Some (JStr vp)"
    and "map_of d ''output_dir'' = Some (JStr od)"
  shows "piv_call execution_params project_root body = Inl TypeError"
  unfolding piv_call_def
  using assms
  by (simp add: subscript_def path_join_def
      call_unexpected_keyword[OF _ piv_params_not_a_parameter])

text \<open>
  Claim C1. When the execution flags enable \<open>piv_analysis\<close>, step 5 of \<open>main\<close> ends the
  process with status 1 whatever the body of \<open>analyze_and_save_frames\<close> is, so before any
  pair is analyzed: the call passes the keyword \<open>piv_params\<close>, which is not a parameter.
  Whenever the configuration has the keys that the call needs, the exception is the
  TypeError of the call, caught by the generic handler.
\<close>

theorem piv_stage_exits:
  assumes "truthy (dict_get exec_flags ''piv_analysis'' (JBool False))"
  shows "(\<exists>h. piv_stage exec_flags execution_params project_root body = SysExit 1 h) \<and>
         (\<forall>d vp od. map_of execution_params ''piv_analysis'' = Some (JObj d) \<and>
                    map_of d ''video_path'' = Some (JStr vp) \<and>
                    map_of d ''output_dir'' = Some (JStr od) \<longrightarrow>
            piv_stage exec_flags execution_params project_root body =
              SysExit 1 (UnexpectedError TypeError))"
proof (intro conjI allI impI)
  obtain e where "piv_call execution_params project_root body = Inl e"
    using piv_call_raises by blast
  then show "\<exists>h. piv_stage exec_flags execution_params project_root body = SysExit 1 h"
    using assms by (cases e) (simp_all add: piv_stage_def)
next
  fix d vp od
  assume "map_of execution_params ''piv_analysis'' = Some (JObj d) \<and>
          map_of d ''video_path'' = Some (JStr vp) \<and>
          map_of d ''output_dir'' = Some (JStr od)"
  then have "piv_call execution_params project_root body = Inl TypeError"
    using piv_call_type_error by blast
  then show "piv_stage exec_flags execution_params project_root body =
              SysExit 1 (UnexpectedError TypeError)"
    using assms by (simp add: piv_stage_def)
qed

theorem piv_stage_exits_witness:
  "truthy (dict_get [(''piv_analysis'', JBool True)] ''piv_analysis'' (JBool False)) \<and>
   piv_stage [(''piv_analysis'', JBool True)]
     [(''piv_analysis'', JObj [(''video_path'', JStr ''in.mp4''), (''output_dir'', JStr ''out'')])]
     ''/proj'' (\<lambda>kw. Inr (0::nat)) = SysExit 1 (UnexpectedError TypeError) \<and>
   (\<exists>h. piv_stage [(''piv_analysis'', JBool True)] [] ''/proj'' (\<lambda>kw. Inr (0::nat)) = SysExit 1 h)"
proof -
  let ?fl = "[(''piv_analysis'', JBool True)]"
  let ?d = "[(''video_path'', JStr ''in.mp4''), (''output_dir'', JStr ''out'')]"
  let ?ep = "[(''piv_analysis'', JObj ?d)]"
  have h: "truthy (dict_get ?fl ''piv_analysis'' (JBool False))" by (simp add: dict_get_def)
  have k: "map_of ?ep ''piv_analysis'' = Some (JObj ?d) \<and>
           map_of ?d ''video_path'' = Some (JStr ''in.mp4'') \<and>
           map_of ?d ''output_dir'' = Some (JStr ''out'')" by simp
  from piv_stage_exits[OF h, of ?ep "''/proj''" "\<lambda>kw. Inr (0::nat)"] k
  have a: "piv_stage ?fl ?ep ''/proj'' (\<lambda>kw. Inr (0::nat)) = SysExit 1 (UnexpectedError TypeError)"
    by blast
  from piv_stage_exits[OF h, of "[]" "''/proj''" "\<lambda>kw. Inr (0::nat)"]
  have b: "\<exists>h. piv_stage ?fl [] ''/proj'' (\<lambda>kw. Inr (0::nat)) = SysExit 1 h" by blast
  show ?thesis using h a b by blast
qed



section \<open>The names of the saved images\<close>

lemma digit_char_less: "a < 10 \<Longrightarrow> b < 10 \<Longrightarrow> (char_of (48 + a :: nat) < char_of (48 + b)) = (a < b)"
  by (simp add: less_char_def)

lemma digit_char_eq: "a < 10 \<Longrightarrow> b < 10 \<Longrightarrow> (char_of (48 + a :: nat) = char_of (48 + b)) = (a = b)"
proof -
  assume a: "a < 10" and b: "b < 10"
  have "of_char (char_of (48 + a :: nat)) = (48 + a :: nat)" using a by simp
  moreover have "of_char (char_of (48 + b :: nat)) = (48 + b :: nat)" using b by simp
  ultimately show ?thesis by (metis add_left_cancel)
qed

lemma zero_char: "CHR ''0'' = char_of (48 :: nat)"
proof -
  have "char_of (of_char (CHR ''0'') :: nat) = CHR ''0''" by (rule char_of_char)
  moreover have "of_char (CHR ''0'') = (48::nat)" by simp
  ultimately show ?thesis by metis
qed

lemma digits_small: "n < 10 \<Longrightarrow> digits n = [char_of (48 + n)]"
  by simp

lemma digits_two: "10 \<le> n \<Longrightarrow> n < 100 \<Longrightarrow> digits n = [char_of (48 + n div 10), char_of (48 + n mod 10)]"
proof -
  assume a: "10 \<le> n" and b: "n < 100"
  have "n div 10 < 10" using b by simp
  then have "digits (n div 10) = [char_of (48 + n div 10)]" by (rule digits_small)
  moreover have "digits n = digits (n div 10) @ [char_of (48 + n mod 10)]"
    using a by (subst digits.simps) simp
  ultimately show ?thesis by simp
qed

lemma digits_three:
  "100 \<le> n \<Longrightarrow> n < 1000 \<Longrightarrow>
   digits n = [char_of (48 + n div 100), char_of (48 + n div 10 mod 10), char_of (48 + n mod 10)]"
proof -
  assume a: "100 \<le> n" and b: "n < 1000"
  have "10 \<le> n div 10" "n div 10 < 100" using a b by simp_all
  then have "digits (n div 10) = [char_of (48 + n div 10 div 10), char_of (48 + n div 10 mod 10)]"
    by (rule digits_two)
  moreover have "n div 10 div 10 = n div 100" by (simp add: div_mult2_eq)
  moreover have "digits n = digits (n div 10) @ [char_of (48 + n mod 10)]"
    using a by (subst digits.simps) simp
  ultimately show ?thesis by simp
qed

lemma format_03d_small:
  assumes "n < 1000"
  shows "format_03d n =
     [char_of (48 + n div 100), char_of (48 + n div 10 mod 10), char_of (48 + n mod 10)]"
proof -
  consider "n < 10" | "10 \<le> n" "n < 100" | "100 \<le> n" using assms by linarith
  then show ?thesis
  proof cases
    case 1
    then show ?thesis unfolding format_03d_def by (simp only: digits_small) (simp add: zero_char numeral_2_eq_2)
  next
    case 2
    then have "n div 100 = 0" "n div 10 mod 10 = n div 10" by simp_all
    then show ?thesis unfolding format_03d_def using 2 by (simp only: digits_two) (simp add: zero_char)
  next
    case 3
    then show ?thesis unfolding format_03d_def using assms by (simp only: digits_three) simp
  qed
qed

lemma decimal_split: "(n::nat) = 100 * (n div 100) + 10 * (n div 10 mod 10) + n mod 10"
proof -
  have "n = 10 * (n div 10) + n mod 10" by simp
  moreover have "n div 10 = 10 * (n div 10 div 10) + n div 10 mod 10" by simp
  moreover have "n div 10 div 10 = n div 100" by (simp add: div_mult2_eq)
  ultimately show ?thesis by linarith
qed

lemma lex3_order:
  fixes a b c a' b' c' :: nat
  assumes "b < 10" "c < 10" "b' < 10" "c' < 10"
  shows "(100 * a + 10 * b + c < 100 * a' + 10 * b' + c') =
         (a < a' \<or> a = a' \<and> (b < b' \<or> b = b' \<and> c < c'))"
  using assms by linarith

lemma three_digit_order:
  "(i < j) =
     (i div 100 < j div 100 \<or> i div 100 = j div 100 \<and>
        (i div 10 mod 10 < j div 10 mod 10 \<or> i div 10 mod 10 = j div 10 mod 10 \<and>
           i mod 10 < (j::nat) mod 10))"
proof -
  have "(i < j) = (100 * (i div 100) + 10 * (i div 10 mod 10) + i mod 10
                 < 100 * (j div 100) + 10 * (j div 10 mod 10) + j mod 10)"
    using decimal_split[of i] decimal_split[of j] by simp
  also have "\<dots> = (i div 100 < j div 100 \<or> i div 100 = j div 100 \<and>
        (i div 10 mod 10 < j div 10 mod 10 \<or> i div 10 mod 10 = j div 10 mod 10 \<and>
           i mod 10 < j mod 10))"
    by (rule lex3_order) simp_all
  finally show ?thesis .
qed

text \<open>
  Claim C5, as amended. The file name carries the base frame index padded with zeros to
  three digits, and for base indices below 1000 the lexicographic order of the file names
  is the numeric order of the indices.
\<close>

theorem image_name_order_below_1000:
  assumes "i < 1000" and "j < 1000"
  shows "(image_name i < image_name j) = (i < j) \<and> length (format_03d i) = 3"
proof -
  have d: "i div 100 < 10" "i div 10 mod 10 < 10" "i mod 10 < 10"
          "j div 100 < 10" "j div 10 mod 10 < 10" "j mod 10 < 10"
    using assms by simp_all
  have "(image_name i < image_name j) =
     (i div 100 < j div 100 \<or> i div 100 = j div 100 \<and>
        (i div 10 mod 10 < j div 10 mod 10 \<or> i div 10 mod 10 = j div 10 mod 10 \<and>
           i mod 10 < j mod 10))"
    unfolding image_name_def format_03d_small[OF assms(1)] format_03d_small[OF assms(2)]
    using d by (simp add: digit_char_less digit_char_eq)
  then show ?thesis
    using three_digit_order[of i j] format_03d_small[OF assms(1)] by simp
qed

theorem image_name_order_below_1000_witness:
  "(7::nat) < 1000 \<and> (12::nat) < 1000 \<and> (image_name 7 < image_name 12) = ((7::nat) < 12) \<and>
   length (format_03d 7) = 3"
  using image_name_order_below_1000[of 7 12] by simp

text \<open>
  Claim C5 as stated fails from the index 1000 on: the name of image 1000 sorts before
  the name of image 999.
\<close>

theorem image_name_order_counterexample:
  "(999::nat) < 1000 \<and> image_name 1000 < image_name 999"
  by (simp add: image_name_def format_03d_def less_char_def)

section \<open>Aggregation over the window\<close>

subsection \<open>One cell across the window\<close>

lemma nanmean_single: "nanmean [x] = x"
  by (cases x) (simp_all add: nanmean_def)

lemma nanmedian_single: "nanmedian [x] = x"
  by (cases x) (simp_all add: nanmedian_def)









subsection \<open>The whole arrays\<close>

lemma rebuild_grid: "map (\<lambda>r. map (\<lambda>c. g ! r ! c) [0..<length (g ! r)]) [0..<length g] = g"
proof -
  have "map (\<lambda>r. map (\<lambda>c. g ! r ! c) [0..<length (g ! r)]) [0..<length g]
      = map (\<lambda>r. g ! r) [0..<length g]"
    by (simp add: map_nth)
  then show ?thesis by (simp add: map_nth)
qed

lemma reduce_axis0_single:
  assumes "\<And>x. f [x] = x"
  shows "reduce_axis0 f [g] = g"
  unfolding reduce_axis0_def by (simp add: assms rebuild_grid)

lemma aggregate_single: "aggregate m [g] = Inr g"
proof -
  have "stack [g] = Inr [g]" by (simp add: stack_def)
  then show ?thesis
    by (simp add: aggregate_def reduce_axis0_single nanmean_single nanmedian_single)
qed




lemma finite_grid_nan_to_num: "finite_grid (map (map nan_to_num) g)"
proof -
  have "is_finite (nan_to_num x)" for x by (cases x) simp_all
  then show ?thesis by (simp add: finite_grid_def list_all_iff)
qed

lemma finite_grid_fneg: "finite_grid g \<Longrightarrow> finite_grid (map (map fneg) g)"
proof -
  have "is_finite x \<Longrightarrow> is_finite (fneg x)" for x by (cases x) simp_all
  then show "finite_grid g \<Longrightarrow> finite_grid (map (map fneg) g)"
    by (simp add: finite_grid_def list_all_iff)
qed

lemma save_image_single:
  assumes "i < length fd"
  shows "save_image scal s 1 m vmax fd i =
     Inr (window_image scal s 1 m vmax (fd ! i) (fr_u (fd ! i)) (fr_v (fd ! i)))"
proof -
  have "py_slice fd (int i) (int i + 1) = take (nat 1) (drop i fd)"
    using assms by (intro py_slice_window) auto
  also have "\<dots> = [fd ! i]"
    using assms by (simp add: take_Suc_conv_app_nth[of 0] hd_drop_conv_nth take_Suc)
  finally have sl: "py_slice fd (int i) (int i + 1) = [fd ! i]" .
  have g0: "py_get [fd ! i] 0 = Inr (fd ! i)" by (simp add: py_get_def)
  show ?thesis
    unfolding save_image_def sl
    by (simp add: g0 aggregate_single Let_def window_image_def)
qed




text \<open>
  Claim C8, as amended. For a window of one field, whatever its cells, the aggregated
  array is the field's own. The arrays drawn for it are those of the field passed
  through the scaling and \<open>nan_to_num\<close>, so every drawn cell is finite: a NaN is drawn as
  zero and an infinite value as the largest finite float64 with its sign.
\<close>

theorem single_window_noop:
  "aggregate m [g] = Inr g \<and>
   (i < length fd \<longrightarrow>
      (\<exists>img. save_image scal s 1 m vmax fd i = Inr (image_name (fr_frame_index (fd ! i)), img) \<and>
         img_u img = map (map nan_to_num) (map (map scal) (fr_u (fd ! i))) \<and>
         img_v img = map (map fneg) (map (map nan_to_num) (map (map scal) (fr_v (fd ! i)))) \<and>
         img_color img =
           map (map nan_to_num)
             (magnitude (map (map scal) (fr_u (fd ! i))) (map (map scal) (fr_v (fd ! i)))) \<and>
         finite_grid (img_u img) \<and> finite_grid (img_v img) \<and> finite_grid (img_color img)))"
proof (intro conjI impI)
  show "aggregate m [g] = Inr g" by (rule aggregate_single)
next
  assume "i < length fd"
  from save_image_single[OF this, of scal s m vmax]
  show "\<exists>img. save_image scal s 1 m vmax fd i = Inr (image_name (fr_frame_index (fd ! i)), img) \<and>
         img_u img = map (map nan_to_num) (map (map scal) (fr_u (fd ! i))) \<and>
         img_v img = map (map fneg) (map (map nan_to_num) (map (map scal) (fr_v (fd ! i)))) \<and>
         img_color img =
           map (map nan_to_num)
             (magnitude (map (map scal) (fr_u (fd ! i))) (map (map scal) (fr_v (fd ! i)))) \<and>
         finite_grid (img_u img) \<and> finite_grid (img_v img) \<and> finite_grid (img_color img)"
    by (simp add: window_image_def finite_grid_nan_to_num
        finite_grid_fneg[OF finite_grid_nan_to_num] del: map_map)
qed

theorem single_window_noop_witness:
  "aggregate ''mean'' [[[NaN, Finite 2]]] = Inr [[NaN, Finite 2]] \<and>
   (0::nat) < length [\<lparr>fr_u = [[NaN]], fr_v = [[Finite 1]], fr_bg = 0::nat, fr_frame_index = 1\<rparr>] \<and>
   (\<exists>img. save_image (\<lambda>x. x) 1 1 ''mean'' (Finite 1)
             [\<lparr>fr_u = [[NaN]], fr_v = [[Finite 1]], fr_bg = 0::nat, fr_frame_index = 1\<rparr>] 0 =
             Inr (image_name 1, img) \<and>
          img_u img = [[Finite 0]] \<and> img_color img = [[Finite 0]])"
proof -
  let ?fd = "[\<lparr>fr_u = [[NaN]], fr_v = [[Finite 1]], fr_bg = 0::nat, fr_frame_index = 1\<rparr>]"
  have h: "(0::nat) < length ?fd" by simp
  note t = single_window_noop[of "''mean''" "[[NaN, Finite 2]]" 0 ?fd "\<lambda>x. x" 1 "Finite 1"]
  from t have a: "aggregate ''mean'' [[[NaN, Finite 2]]] = Inr [[NaN, Finite 2]]" by blast
  from t h have "\<exists>img. save_image (\<lambda>x. x) 1 1 ''mean'' (Finite 1) ?fd 0 =
             Inr (image_name (fr_frame_index (?fd ! 0)), img) \<and>
         img_u img = map (map nan_to_num) (map (map (\<lambda>x. x)) (fr_u (?fd ! 0))) \<and>
         img_color img =
           map (map nan_to_num)
             (magnitude (map (map (\<lambda>x. x)) (fr_u (?fd ! 0))) (map (map (\<lambda>x. x)) (fr_v (?fd ! 0))))"
    by blast
  then have b: "\<exists>img. save_image (\<lambda>x. x) 1 1 ''mean'' (Finite 1) ?fd 0 = Inr (image_name 1, img) \<and>
          img_u img = [[Finite 0]] \<and> img_color img = [[Finite 0]]"
    by (simp add: magnitude_def)
  show ?thesis using a h b by blast
qed

text \<open>
  Claim C8 as stated fails on an infinite component: its magnitude is drawn as the
  largest finite float64, not as zero.
\<close>

theorem single_window_counterexample:
  "map_sum id (\<lambda>r. img_color (snd r))
     (save_image (\<lambda>x. x) 1 1 ''mean'' (Finite 1)
        [\<lparr>fr_u = [[PosInf]], fr_v = [[Finite 0]], fr_bg = 0::nat, fr_frame_index = 1\<rparr>] 0) =
     Inr [[Finite float_max]] \<and>
   Finite float_max \<noteq> Finite 0"
proof -
  have "(0::nat) < length [\<lparr>fr_u = [[PosInf]], fr_v = [[Finite 0]], fr_bg = 0::nat, fr_frame_index = 1\<rparr>]"
    by simp
  from save_image_single[OF this, of "\<lambda>x. x" 1 "''mean''" "Finite 1"]
  show ?thesis using float_max_pos by (simp add: window_image_def magnitude_def)
qed

end
